theory Spec2Isabelle
  imports Main "HOL-Library.Word"
begin

section \<open>GraphSlick plugin module: data model\<close>

text \<open>
  The development embeds \<^verbatim>\<open>plugin.cpp\<close>: the graph context \<^verbatim>\<open>grdata_t\<close> with its
  callback, and the chooser \<^verbatim>\<open>gschooser_t\<close> with \<^verbatim>\<open>load_file\<close>, \<^verbatim>\<open>sizer\<close>,
  \<^verbatim>\<open>get_color_anyway\<close> and \<^verbatim>\<open>enter\<close>. Objects created with \<^verbatim>\<open>new\<close> live in explicit
  heaps (maps from addresses to objects); a pointer is an address or \<open>None\<close> for NULL.
  Addresses are handed out by a counter and never reused, so a pointer to a deleted object
  is recognisably dangling.
\<close>

type_synonym ea_t = nat
type_synonym addr = nat
type_synonym bgcolor_t = "32 word"

datatype error = NullDeref | UseAfterFree | DoubleFree

subsection \<open>Group tree (groupman.h)\<close>

record nodedef_t =
  nid :: int
  start :: ea_t
  end_ea :: ea_t

type_synonym nodedef_list_t = "nodedef_t list"
type_synonym nodegroup_listp_t = "nodedef_list_t list"

record groupdef_t =
  gd_id :: string
  groupname :: string
  nodegroups :: nodegroup_listp_t

record groupman_t =
  source_file :: string
  groups :: "groupdef_t list"

text \<open>
  Pointers into a loaded tree: a \<^verbatim>\<open>groupdef_t *\<close> (and the \<^verbatim>\<open>nodegroup_listp_t *\<close> of
  its member \<^verbatim>\<open>nodegroups\<close>) is the address of the owning \<^verbatim>\<open>groupman_t\<close> with the
  position of the group; a \<^verbatim>\<open>nodedef_list_t *\<close> adds the position of the list.
\<close>

type_synonym gd_ptr = "addr \<times> nat"
type_synonym nl_ptr = "addr \<times> nat \<times> nat"

subsection \<open>Colour generators (colorgen.h)\<close>

text \<open>
  Modelled from the spec: the classes \<^verbatim>\<open>colorgen_t\<close> and \<^verbatim>\<open>colorvargen_t\<close> of
  \<^verbatim>\<open>colorgen.h\<close> are declared in a header that this development does not embed. The spec describes a finite palette of
  base colours, each with the same number of variants (it counts the palette as
  bases times variants), a cycle state made of a base index and a variant index, and three
  operations: the next variant of the current base or the sentinel when the base has no
  more shades; the advance to a new base, refused when all bases were used; and the rewind to
  the first base. The palette itself is a parameter of the model.
\<close>

record palette_t =
  bases :: nat
  variants :: nat
  shade :: "nat \<Rightarrow> nat \<Rightarrow> bgcolor_t"

record colorvargen_t =
  cv_base :: "nat option"
  variant_index :: nat

record colorgen_t =
  base_index :: nat
  L_INT :: int

definition colorvargen_new :: colorvargen_t where
  "colorvargen_new = \<lparr>cv_base = None, variant_index = 0\<rparr>"

definition colorgen_new :: colorgen_t where
  "colorgen_new = \<lparr>base_index = 0, L_INT = 0\<rparr>"

definition get_color :: "palette_t \<Rightarrow> colorvargen_t \<Rightarrow> bgcolor_t \<times> colorvargen_t" where
  "get_color pal cv =
     (case cv_base cv of
        None \<Rightarrow> (0, cv)
      | Some b \<Rightarrow>
          if b < bases pal \<and> variant_index cv < variants pal
          then (shade pal b (variant_index cv), cv\<lparr>variant_index := variant_index cv + 1\<rparr>)
          else (0, cv))"

definition get_colorvar ::
  "palette_t \<Rightarrow> colorgen_t \<Rightarrow> colorvargen_t \<Rightarrow> bool \<times> colorgen_t \<times> colorvargen_t" where
  "get_colorvar pal cg cv =
     (if base_index cg < bases pal
      then (True, cg\<lparr>base_index := base_index cg + 1\<rparr>,
            \<lparr>cv_base = Some (base_index cg), variant_index = 0\<rparr>)
      else (False, cg, cv))"

definition rewind :: "colorgen_t \<Rightarrow> colorgen_t" where
  "rewind cg = cg\<lparr>base_index := 0\<rparr>"

text \<open>
  A palette is non-empty when it has a base and a variant; its colours are renderable when
  none of them is the sentinel 0 that \<^verbatim>\<open>get_color\<close> returns for an exhausted base.
\<close>

definition palette_nonempty :: "palette_t \<Rightarrow> bool" where
  "palette_nonempty pal \<longleftrightarrow> 0 < bases pal \<and> 0 < variants pal"

definition palette_renderable :: "palette_t \<Rightarrow> bool" where
  "palette_renderable pal \<longleftrightarrow>
     (\<forall>b < bases pal. \<forall>v < variants pal. shade pal b v \<noteq> 0)"

subsection \<open>get_color_anyway\<close>

text \<open>
  The \<^verbatim>\<open>while (true)\<close> loop of \<^verbatim>\<open>gschooser_t::get_color_anyway\<close>. The generators are
  passed by reference in the source, so the model returns them with the colour. A run that
  never leaves the loop has the value \<open>None\<close>.
\<close>

partial_function (option) get_color_anyway ::
  "palette_t \<Rightarrow> colorgen_t \<Rightarrow> colorvargen_t \<Rightarrow> (bgcolor_t \<times> colorgen_t \<times> colorvargen_t) option"
where
  "get_color_anyway pal cg cv =
     (case get_color pal cv of
        (clr, cv1) \<Rightarrow>
          if clr \<noteq> 0 then Some (clr, cg, cv1)
          else (case get_colorvar pal cg cv1 of
                  (ok, cg1, cv2) \<Rightarrow>
                    if \<not> ok
                    then (case get_colorvar pal (rewind cg1) cv2 of
                            (ok', cg2, cv3) \<Rightarrow> get_color_anyway pal cg2 cv3)
                    else get_color_anyway pal cg1 cv2))"

text \<open>
  The same loop, cut off after \<open>n\<close> iterations: \<open>None\<close> when the loop has not left by then.
\<close>

fun get_color_anyway_within ::
  "nat \<Rightarrow> palette_t \<Rightarrow> colorgen_t \<Rightarrow> colorvargen_t \<Rightarrow>
   (bgcolor_t \<times> colorgen_t \<times> colorvargen_t) option"
where
  "get_color_anyway_within 0 pal cg cv = None"
| "get_color_anyway_within (Suc n) pal cg cv =
     (case get_color pal cv of
        (clr, cv1) \<Rightarrow>
          if clr \<noteq> 0 then Some (clr, cg, cv1)
          else (case get_colorvar pal cg cv1 of
                  (ok, cg1, cv2) \<Rightarrow>
                    if \<not> ok
                    then (case get_colorvar pal (rewind cg1) cv2 of
                            (ok', cg2, cv3) \<Rightarrow> get_color_anyway_within n pal cg2 cv3)
                    else get_color_anyway_within n pal cg1 cv2))"

subsection \<open>Graph context (grdata_t)\<close>

text \<open>
  \<^verbatim>\<open>gnode_t\<close> and \<^verbatim>\<open>gnodemap_t\<close> are declared in other modules; only the
  label text of a node and the lookup by node id are used here.
\<close>

record gnode_t =
  node_text :: string

type_synonym gnodemap_t = "int \<rightharpoonup> gnode_t"
type_synonym ncolormap_t = "int \<rightharpoonup> bgcolor_t"

text \<open>
  A \<^verbatim>\<open>grdata_t **\<close>: the only such pointer the program ever takes is \<^verbatim>\<open>&gr\<close>, the
  address of the member \<^verbatim>\<open>gr\<close> of the singleton chooser.
\<close>

datatype grdata_ref = chooser_gr

definition rfm_soft :: int where "rfm_soft = 0"
definition rfm_rebuild :: int where "rfm_rebuild = 1"

record grdata_t =
  node_map :: gnodemap_t
  ea :: ea_t
  cur_node :: int
  gv :: "nat option"
  sel_nodes :: ncolormap_t
  form :: "nat option"
  parent_ref :: "grdata_ref option"
  gr_gm :: "addr option"
  refresh_mode :: int

definition grdata_new :: "ea_t \<Rightarrow> grdata_t" where
  "grdata_new a =
     \<lparr>node_map = Map.empty, ea = a, cur_node = 0, gv = None, sel_nodes = Map.empty,
      form = None, parent_ref = None, gr_gm = None, refresh_mode = rfm_soft\<rparr>"

subsection \<open>Chooser rows and the program state\<close>

datatype chooser_node_type_t = chnt_gm | chnt_gd | chnt_nl

record chooser_node_t =
  type :: chooser_node_type_t
  cn_gm :: "addr option"
  cn_gd :: "gd_ptr option"
  cn_ngl :: "gd_ptr option"
  cn_nl :: "nl_ptr option"

text \<open>
  The state: the members \<^verbatim>\<open>ch_nodes\<close>, \<^verbatim>\<open>gr\<close> and \<^verbatim>\<open>gm\<close> of the singleton chooser,
  the heap of graph contexts, the heap of group managers with its allocation counter, the
  lines printed with \<^verbatim>\<open>msg\<close>, and the viewers passed to \<^verbatim>\<open>refresh_viewer\<close>.
\<close>

record world =
  ch_nodes :: "chooser_node_t list"
  gr :: "addr option"
  gm :: "addr option"
  gr_heap :: "addr \<rightharpoonup> grdata_t"
  gm_heap :: "addr \<rightharpoonup> groupman_t"
  next_addr :: addr
  msgs :: "string list"
  refreshed :: "nat list"

definition gschooser_new :: world where
  "gschooser_new =
     \<lparr>ch_nodes = [], gr = None, gm = None, gr_heap = Map.empty, gm_heap = Map.empty,
      next_addr = 0, msgs = [], refreshed = []\<rparr>"

subsection \<open>grdata_t::gr_callback\<close>

text \<open>
  The event codes with the arguments read from the \<^verbatim>\<open>va_list\<close>; for
  \<^verbatim>\<open>grcode_user_text\<close> the flag says whether the \<^verbatim>\<open>bgcolor\<close> pointer is non-null. The
  converter \<^verbatim>\<open>func_to_mgraph\<close> belongs to another module and is a parameter: it is
  given the function address and the node map by reference. The mutable graph it fills
  belongs to the host and is not part of the state.
\<close>

datatype grcode =
  grcode_changed_current int
| grcode_user_refresh
| grcode_user_text int bool
| grcode_destroyed
| grcode_other

datatype cb_out = no_out | user_text_out string "bgcolor_t option"

definition user_refresh :: "(ea_t \<Rightarrow> gnodemap_t \<Rightarrow> gnodemap_t) \<Rightarrow> grdata_t \<Rightarrow> grdata_t" where
  "user_refresh func_to_mgraph g =
     (if node_map g = Map.empty \<or> refresh_mode g = rfm_rebuild
      then g\<lparr>node_map := func_to_mgraph (ea g) (node_map g)\<rparr>
      else g)"

definition destroyed :: "addr \<Rightarrow> grdata_t \<Rightarrow> world \<Rightarrow> world" where
  "destroyed this g w =
     (let g1 = g\<lparr>gv := None, form := None\<rparr>;
          w1 = w\<lparr>gr_heap := (gr_heap w)(this \<mapsto> g1)\<rparr>;
          w2 = (case parent_ref g1 of
                  None \<Rightarrow> w1
                | Some chooser_gr \<Rightarrow> w1\<lparr>gr := None\<rparr>)
      in w2\<lparr>gr_heap := (gr_heap w2)(this := None)\<rparr>)"

definition gr_callback ::
  "(ea_t \<Rightarrow> gnodemap_t \<Rightarrow> gnodemap_t) \<Rightarrow> addr \<Rightarrow> grcode \<Rightarrow> world \<Rightarrow>
   error + (int \<times> cb_out \<times> world)"
where
  "gr_callback func_to_mgraph this code w =
     (case code of
        grcode_other \<Rightarrow> Inr (0, no_out, w)
      | _ \<Rightarrow>
        (case gr_heap w this of
           None \<Rightarrow> Inl UseAfterFree
         | Some g \<Rightarrow>
            (case code of
               grcode_changed_current n \<Rightarrow>
                 Inr (0, no_out, w\<lparr>gr_heap := (gr_heap w)(this \<mapsto> g\<lparr>cur_node := n\<rparr>)\<rparr>)
             | grcode_user_refresh \<Rightarrow>
                 Inr (1, no_out,
                      w\<lparr>gr_heap := (gr_heap w)(this \<mapsto> user_refresh func_to_mgraph g)\<rparr>)
             | grcode_user_text node has_bgcolor \<Rightarrow>
                 (case node_map g node of
                    None \<Rightarrow> Inl NullDeref
                  | Some nd \<Rightarrow>
                      Inr (1, user_text_out (node_text nd)
                                (if has_bgcolor then sel_nodes g node else None), w))
             | grcode_destroyed \<Rightarrow> Inr (1, no_out, destroyed this g w)
             | grcode_other \<Rightarrow> Inr (0, no_out, w))))"

text \<open>A run of \<open>n\<close> successive paint pulls on the context at address \<open>this\<close>.\<close>

fun draw_pulls ::
  "(ea_t \<Rightarrow> gnodemap_t \<Rightarrow> gnodemap_t) \<Rightarrow> addr \<Rightarrow> nat \<Rightarrow> world \<Rightarrow> error + world"
where
  "draw_pulls func_to_mgraph this 0 w = Inr w"
| "draw_pulls func_to_mgraph this (Suc n) w =
     (case gr_callback func_to_mgraph this grcode_user_refresh w of
        Inl e \<Rightarrow> Inl e
      | Inr (r, out, w') \<Rightarrow> draw_pulls func_to_mgraph this n w')"

subsection \<open>gschooser_t::load_file and sizer\<close>

definition file_row :: "addr \<Rightarrow> chooser_node_t" where
  "file_row a =
     \<lparr>type = chnt_gm, cn_gm = Some a, cn_gd = None, cn_ngl = None, cn_nl = None\<rparr>"

definition gd_row :: "addr \<Rightarrow> nat \<Rightarrow> chooser_node_t" where
  "gd_row a gi =
     \<lparr>type = chnt_gd, cn_gm = Some a, cn_gd = Some (a, gi), cn_ngl = Some (a, gi),
      cn_nl = None\<rparr>"

definition nl_row :: "addr \<Rightarrow> nat \<Rightarrow> nat \<Rightarrow> chooser_node_t" where
  "nl_row a gi li =
     \<lparr>type = chnt_nl, cn_gm = Some a, cn_gd = Some (a, gi), cn_ngl = Some (a, gi),
      cn_nl = Some (a, gi, li)\<rparr>"

text \<open>
  The inner loop over the node group list of the group at position \<open>gi\<close> and the outer
  loop over the groups; each \<^verbatim>\<open>push_back\<close> appends to the row vector.
\<close>

fun push_nls ::
  "addr \<Rightarrow> nat \<Rightarrow> nat \<Rightarrow> nodegroup_listp_t \<Rightarrow> chooser_node_t list \<Rightarrow> chooser_node_t list"
where
  "push_nls a gi li [] rows = rows"
| "push_nls a gi li (nl # nls) rows = push_nls a gi (Suc li) nls (rows @ [nl_row a gi li])"

fun push_groups ::
  "addr \<Rightarrow> nat \<Rightarrow> groupdef_t list \<Rightarrow> chooser_node_t list \<Rightarrow> chooser_node_t list"
where
  "push_groups a gi [] rows = rows"
| "push_groups a gi (gd # gds) rows =
     push_groups a (Suc gi) gds (push_nls a gi 0 (nodegroups gd) (rows @ [gd_row a gi]))"

definition delete_gm :: "world \<Rightarrow> error + world" where
  "delete_gm w =
     (case gm w of
        None \<Rightarrow> Inr w
      | Some a \<Rightarrow>
          (case gm_heap w a of
             None \<Rightarrow> Inl DoubleFree
           | Some t \<Rightarrow> Inr (w\<lparr>gm_heap := (gm_heap w)(a := None)\<rparr>)))"

definition new_gm :: "world \<Rightarrow> world" where
  "new_gm w =
     w\<lparr>gm_heap := (gm_heap w)(next_addr w \<mapsto> \<lparr>source_file = [], groups = []\<rparr>),
       gm := Some (next_addr w),
       next_addr := Suc (next_addr w)\<rparr>"

definition parse_error_msg :: "string \<Rightarrow> string" where
  "parse_error_msg filename =
     ''error: failed to parse group file '' @ [CHR 0x27] @ filename @ [CHR 0x27, CHR 0x0A]"

text \<open>
  \<^verbatim>\<open>groupman_t::parse\<close> belongs to another module and is a parameter: the tree read from
  the file, or \<open>None\<close> when parsing fails.
\<close>

definition load_file ::
  "(string \<Rightarrow> groupman_t option) \<Rightarrow> string \<Rightarrow> world \<Rightarrow> error + (bool \<times> world)"
where
  "load_file parse filename w =
     (case delete_gm w of
        Inl e \<Rightarrow> Inl e
      | Inr w0 \<Rightarrow>
          (let a = next_addr w0; w1 = new_gm w0 in
           case parse filename of
             None \<Rightarrow>
               Inr (False, w1\<lparr>msgs := msgs w1 @ [parse_error_msg filename],
                               gm_heap := (gm_heap w1)(a := None)\<rparr>)
           | Some t \<Rightarrow>
               Inr (True, w1\<lparr>gm_heap := (gm_heap w1)(a \<mapsto> t),
                              ch_nodes :=
                                push_groups a 0 (groups t) (ch_nodes w1 @ [file_row a])\<rparr>)))"

text \<open>The row count, before its conversion to \<^verbatim>\<open>uint32\<close>.\<close>

definition sizer :: "world \<Rightarrow> nat" where
  "sizer w = length (ch_nodes w)"

text \<open>
  The rows as the spec words them: one file row, then for each group one group row
  followed by one list row per member list.
\<close>

definition preorder_rows :: "addr \<Rightarrow> groupman_t \<Rightarrow> chooser_node_t list" where
  "preorder_rows a t =
     file_row a #
     concat (map (\<lambda>(gi, gd). gd_row a gi #
                              map (\<lambda>(li, nl). nl_row a gi li) (enumerate 0 (nodegroups gd)))
                 (enumerate 0 (groups t)))"

subsection \<open>gschooser_t::enter\<close>

text \<open>
  Modelled from the spec: the macro \<^verbatim>\<open>IS_SEL\<close> comes from the host's headers. The spec
  addresses rows by a 1-based index after a header row at index 0.
\<close>

definition IS_SEL :: "nat \<Rightarrow> bool" where
  "IS_SEL n \<longleftrightarrow> 1 \<le> n"

text \<open>
  Results of the handlers: \<open>None\<close> when \<^verbatim>\<open>get_color_anyway\<close> never returns, an error when
  a null or dangling pointer is dereferenced, the new state otherwise.
\<close>

definition bind_r ::
  "(error + 'a) option \<Rightarrow> ('a \<Rightarrow> (error + 'b) option) \<Rightarrow> (error + 'b) option" where
  "bind_r m f = (case m of None \<Rightarrow> None | Some (Inl e) \<Rightarrow> Some (Inl e) | Some (Inr x) \<Rightarrow> f x)"

definition deref_gm :: "world \<Rightarrow> addr option \<Rightarrow> error + groupman_t" where
  "deref_gm w p =
     (case p of
        None \<Rightarrow> Inl NullDeref
      | Some a \<Rightarrow> (case gm_heap w a of None \<Rightarrow> Inl UseAfterFree | Some t \<Rightarrow> Inr t))"

definition deref_ngl :: "world \<Rightarrow> gd_ptr option \<Rightarrow> error + nodegroup_listp_t" where
  "deref_ngl w p =
     (case p of
        None \<Rightarrow> Inl NullDeref
      | Some (a, gi) \<Rightarrow>
          (case gm_heap w a of
             None \<Rightarrow> Inl UseAfterFree
           | Some t \<Rightarrow>
               if gi < length (groups t) then Inr (nodegroups (groups t ! gi))
               else Inl UseAfterFree))"

definition deref_nl :: "world \<Rightarrow> nl_ptr option \<Rightarrow> error + nodedef_list_t" where
  "deref_nl w p =
     (case p of
        None \<Rightarrow> Inl NullDeref
      | Some (a, gi, li) \<Rightarrow>
          (case deref_ngl w (Some (a, gi)) of
             Inl e \<Rightarrow> Inl e
           | Inr ngl \<Rightarrow> if li < length ngl then Inr (ngl ! li) else Inl UseAfterFree))"

definition deref_gd :: "world \<Rightarrow> gd_ptr option \<Rightarrow> error + groupdef_t" where
  "deref_gd w p =
     (case p of
        None \<Rightarrow> Inl NullDeref
      | Some (a, gi) \<Rightarrow>
          (case gm_heap w a of
             None \<Rightarrow> Inl UseAfterFree
           | Some t \<Rightarrow>
               if gi < length (groups t) then Inr (groups t ! gi) else Inl UseAfterFree))"

text \<open>
  The selectable list as the spec words it. A row is a tagged union: the file row refers to
  the tree, a group row to one group and its node group list, a list row to one node list
  with its owning node group list and group. \<open>SelectableList_build\<close> produces one file
  row, then for each group one group row followed by one list row per member node list.
\<close>

datatype row =
  FileRow groupman_t
| GroupRow groupdef_t nodegroup_listp_t
| ListRow nodedef_list_t nodegroup_listp_t groupdef_t

definition SelectableList_build :: "groupman_t \<Rightarrow> row list" where
  "SelectableList_build t =
     FileRow t #
     concat (map (\<lambda>gd. GroupRow gd (nodegroups gd) #
                       map (\<lambda>nl. ListRow nl (nodegroups gd) gd) (nodegroups gd))
                 (groups t))"

text \<open>
  What a chooser node stands for in a state: its kind is read from the \<^verbatim>\<open>type\<close> tag and
  its content through the pointers of that kind, as \<^verbatim>\<open>get_node_desc\<close> and \<^verbatim>\<open>enter\<close>
  read them. A null or dangling pointer is an error.
\<close>

definition row_of :: "world \<Rightarrow> chooser_node_t \<Rightarrow> error + row" where
  "row_of w chn =
     (case type chn of
        chnt_gm \<Rightarrow>
          (case deref_gm w (cn_gm chn) of Inl e \<Rightarrow> Inl e | Inr t \<Rightarrow> Inr (FileRow t))
      | chnt_gd \<Rightarrow>
          (case deref_gd w (cn_gd chn) of
             Inl e \<Rightarrow> Inl e
           | Inr gd \<Rightarrow>
               (case deref_ngl w (cn_ngl chn) of
                  Inl e \<Rightarrow> Inl e
                | Inr ngl \<Rightarrow> Inr (GroupRow gd ngl)))
      | chnt_nl \<Rightarrow>
          (case deref_nl w (cn_nl chn) of
             Inl e \<Rightarrow> Inl e
           | Inr nl \<Rightarrow>
               (case deref_ngl w (cn_ngl chn) of
                  Inl e \<Rightarrow> Inl e
                | Inr ngl \<Rightarrow>
                    (case deref_gd w (cn_gd chn) of
                       Inl e \<Rightarrow> Inl e
                     | Inr gd \<Rightarrow> Inr (ListRow nl ngl gd)))))"

text \<open>
  The state in which the graph context \<open>g\<close>, stored at address \<open>a\<close>, has the highlight
  map \<open>h\<close>.
\<close>

definition with_highlight :: "addr \<Rightarrow> grdata_t \<Rightarrow> ncolormap_t \<Rightarrow> world \<Rightarrow> world" where
  "with_highlight a g h w = w\<lparr>gr_heap := (gr_heap w)(a \<mapsto> g\<lparr>sel_nodes := h\<rparr>)\<rparr>"

text \<open>The assignment \<^verbatim>\<open>gr->sel_nodes[nid] = clr\<close> and the loop over one node list.\<close>

definition set_sel_node :: "int \<Rightarrow> bgcolor_t \<Rightarrow> world \<Rightarrow> error + world" where
  "set_sel_node i clr w =
     (case gr w of
        None \<Rightarrow> Inl NullDeref
      | Some a \<Rightarrow>
          (case gr_heap w a of
             None \<Rightarrow> Inl UseAfterFree
           | Some g \<Rightarrow> Inr (with_highlight a g ((sel_nodes g)(i \<mapsto> clr)) w)))"

fun color_nodes :: "bgcolor_t \<Rightarrow> nodedef_list_t \<Rightarrow> world \<Rightarrow> error + world" where
  "color_nodes clr [] w = Inr w"
| "color_nodes clr (nd # nds) w =
     (case set_sel_node (nid nd) clr w of
        Inl e \<Rightarrow> Inl e
      | Inr w' \<Rightarrow> color_nodes clr nds w')"

text \<open>The loop over the node lists of one group: a new colour for each list.\<close>

fun color_nodegroups ::
  "palette_t \<Rightarrow> nodegroup_listp_t \<Rightarrow> colorgen_t \<Rightarrow> colorvargen_t \<Rightarrow> world \<Rightarrow>
   (error + colorgen_t \<times> colorvargen_t \<times> world) option"
where
  "color_nodegroups pal [] cg cv w = Some (Inr (cg, cv, w))"
| "color_nodegroups pal (nl # nls) cg cv w =
     (case get_color_anyway pal cg cv of
        None \<Rightarrow> None
      | Some (clr, cg1, cv1) \<Rightarrow>
          (case color_nodes clr nl w of
             Inl e \<Rightarrow> Some (Inl e)
           | Inr w1 \<Rightarrow> color_nodegroups pal nls cg1 cv1 w1))"

text \<open>The loop over all groups of the tree: a new base for each group.\<close>

fun color_groups ::
  "palette_t \<Rightarrow> groupdef_t list \<Rightarrow> colorgen_t \<Rightarrow> colorvargen_t \<Rightarrow> world \<Rightarrow>
   (error + colorgen_t \<times> colorvargen_t \<times> world) option"
where
  "color_groups pal [] cg cv w = Some (Inr (cg, cv, w))"
| "color_groups pal (gd # gds) cg cv w =
     (case get_colorvar pal cg cv of
        (ok, cg1, cv1) \<Rightarrow>
          bind_r (color_nodegroups pal (nodegroups gd) cg1 cv1 w)
            (\<lambda>(cg2, cv2, w1). color_groups pal gds cg2 cv2 w1))"

text \<open>
  The macro \<^verbatim>\<open>DECL_CG\<close> declares fresh generators \<^verbatim>\<open>cg\<close>, with \<^verbatim>\<open>cg.L_INT = -15\<close>,
  and \<^verbatim>\<open>cv\<close>.
\<close>

definition DECL_CG_cg :: colorgen_t where
  "DECL_CG_cg = colorgen_new\<lparr>L_INT := - 15\<rparr>"

definition DECL_CG_cv :: colorvargen_t where
  "DECL_CG_cv = colorvargen_new"

text \<open>The case \<^verbatim>\<open>chnt_gm\<close> of \<^verbatim>\<open>enter\<close>.\<close>

definition enter_gm :: "palette_t \<Rightarrow> world \<Rightarrow> (error + world) option" where
  "enter_gm pal w =
     bind_r (Some (deref_gm w (gm w)))
       (\<lambda>t. bind_r (color_groups pal (groups t) DECL_CG_cg DECL_CG_cv w)
          (\<lambda>(cg1, cv1, w1). Some (Inr w1)))"

text \<open>
  The joint case \<^verbatim>\<open>chnt_nl\<close>, \<^verbatim>\<open>chnt_gd\<close> of \<^verbatim>\<open>enter\<close>: its two branches after
  \<^verbatim>\<open>gr->sel_nodes.clear()\<close>, then the guard, the clearing and the soft refresh around them.
\<close>

definition enter_nl :: "palette_t \<Rightarrow> chooser_node_t \<Rightarrow> world \<Rightarrow> (error + world) option" where
  "enter_nl pal chn w =
     (case get_colorvar pal DECL_CG_cg DECL_CG_cv of
        (ok, cg1, cv1) \<Rightarrow>
          (case get_color_anyway pal cg1 cv1 of
             None \<Rightarrow> None
           | Some (clr, cg2, cv2) \<Rightarrow>
               bind_r (Some (deref_nl w (cn_nl chn))) (\<lambda>nl. Some (color_nodes clr nl w))))"

definition enter_gd :: "palette_t \<Rightarrow> chooser_node_t \<Rightarrow> world \<Rightarrow> (error + world) option" where
  "enter_gd pal chn w =
     (case get_colorvar pal DECL_CG_cg DECL_CG_cv of
        (ok, cg1, cv1) \<Rightarrow>
          bind_r (Some (deref_ngl w (cn_ngl chn)))
            (\<lambda>ngl. bind_r (color_nodegroups pal ngl cg1 cv1 w)
               (\<lambda>(cg2, cv2, w1). Some (Inr w1))))"

definition enter_nl_gd :: "palette_t \<Rightarrow> chooser_node_t \<Rightarrow> world \<Rightarrow> (error + world) option" where
  "enter_nl_gd pal chn w =
     (case gr w of
        None \<Rightarrow> Some (Inr w)
      | Some a \<Rightarrow>
          (case gr_heap w a of
             None \<Rightarrow> Some (Inl UseAfterFree)
           | Some g \<Rightarrow>
               (case gv g of
                  None \<Rightarrow> Some (Inr w)
                | Some v \<Rightarrow>
                    bind_r
                      (if type chn = chnt_nl
                       then enter_nl pal chn (with_highlight a g Map.empty w)
                       else enter_gd pal chn (with_highlight a g Map.empty w))
                      (\<lambda>w2. Some (Inr (w2\<lparr>refreshed := refreshed w2 @ [v]\<rparr>))))))"

definition enter :: "palette_t \<Rightarrow> nat \<Rightarrow> world \<Rightarrow> (error + world) option" where
  "enter pal n w =
     (if \<not> IS_SEL n \<or> n > length (ch_nodes w) then Some (Inr w)
      else
        (let chn = ch_nodes w ! (n - 1) in
         case type chn of
           chnt_gm \<Rightarrow> enter_gm pal w
         | chnt_nl \<Rightarrow> enter_nl_gd pal chn w
         | chnt_gd \<Rightarrow> enter_nl_gd pal chn w))"

text \<open>The node ids reachable from a tree.\<close>

definition tree_ids :: "groupman_t \<Rightarrow> int set" where
  "tree_ids t = nid ` set (concat (concat (map nodegroups (groups t))))"

section \<open>Sample inputs\<close>

text \<open>Concrete palettes, trees and states at which the statements below are instantiated.\<close>

definition pal_one :: palette_t where
  "pal_one = \<lparr>bases = 1, variants = 1, shade = (\<lambda>b v. 0x00FF00)\<rparr>"

definition pal_none :: palette_t where
  "pal_none = \<lparr>bases = 0, variants = 0, shade = (\<lambda>b v. 0)\<rparr>"

text \<open>
  A sample group file, after the end-to-end scenario of the spec: one group \<open>G1\<close> with the
  node lists \<open>{1, 2}\<close> and \<open>{3}\<close>; a second file with one group without lists; any other
  file name fails to parse.
\<close>

definition sample_node :: "int \<Rightarrow> nodedef_t" where
  "sample_node k = \<lparr>nid = k, start = 4198400, end_ea = 4198416\<rparr>"

definition tree_one :: groupman_t where
  "tree_one =
     \<lparr>source_file = ''f1.bbgroup'',
      groups = [\<lparr>gd_id = ''G1'', groupname = ''first'',
                 nodegroups = [[sample_node 1, sample_node 2], [sample_node 3]]\<rparr>]\<rparr>"

definition tree_two :: groupman_t where
  "tree_two =
     \<lparr>source_file = ''f2.bbgroup'',
      groups = [\<lparr>gd_id = ''G2'', groupname = ''second'', nodegroups = []\<rparr>]\<rparr>"

definition parse_sample :: "string \<Rightarrow> groupman_t option" where
  "parse_sample fn =
     (if fn = ''f1.bbgroup'' then Some tree_one
      else if fn = ''f2.bbgroup'' then Some tree_two
      else None)"

definition world_loaded :: world where
  "world_loaded =
     gschooser_new\<lparr>ch_nodes := [file_row 0, gd_row 0 0, nl_row 0 0 0, nl_row 0 0 1],
                    gm := Some 0, gm_heap := [0 \<mapsto> tree_one], next_addr := 1\<rparr>"

text \<open>Concrete graph contexts used to instantiate the statements below.\<close>

definition conv_one :: "ea_t \<Rightarrow> gnodemap_t \<Rightarrow> gnodemap_t" where
  "conv_one a m = [1 \<mapsto> \<lparr>node_text = ''entry''\<rparr>]"

definition g_stale :: grdata_t where
  "g_stale = (grdata_new 4198400)\<lparr>gv := Some 1, form := Some 1, sel_nodes := [7 \<mapsto> 255],
                                    parent_ref := Some chooser_gr\<rparr>"

definition g_built :: grdata_t where
  "g_built = g_stale\<lparr>node_map := [1 \<mapsto> \<lparr>node_text = ''entry''\<rparr>]\<rparr>"

definition world_stale :: world where
  "world_stale = gschooser_new\<lparr>gr := Some 0, gr_heap := [0 \<mapsto> g_stale]\<rparr>"

definition world_built :: world where
  "world_built = gschooser_new\<lparr>gr := Some 0, gr_heap := [0 \<mapsto> g_built]\<rparr>"

definition world_torn_down :: world where
  "world_torn_down = gschooser_new"

text \<open>
  Sample states: the chooser with the sample file loaded and a graph view attached whose
  context highlights node 7; the same with the viewer pointer of the context null.
\<close>

definition g_no_view :: grdata_t where
  "g_no_view = g_built\<lparr>gv := None\<rparr>"

definition world_view :: world where
  "world_view = world_loaded\<lparr>gr := Some 0, gr_heap := [0 \<mapsto> g_built]\<rparr>"

definition world_no_view :: world where
  "world_no_view = world_loaded\<lparr>gr := Some 0, gr_heap := [0 \<mapsto> g_no_view]\<rparr>"

section \<open>Properties of get_color_anyway\<close>

lemma get_color_anyway_within_sound:
  "get_color_anyway_within n pal cg cv = Some r \<Longrightarrow> get_color_anyway pal cg cv = Some r"
proof (induction n arbitrary: cg cv)
  case 0
  then show ?case by simp
next
  case (Suc n)
  show ?case
    using Suc.prems
    by (subst get_color_anyway.simps)
       (auto split: prod.splits if_splits dest: Suc.IH)
qed

lemma get_color_empty:
  "\<not> palette_nonempty pal \<Longrightarrow> get_color pal cv = (0, cv)"
  by (auto simp: get_color_def palette_nonempty_def split: option.splits)

lemma get_color_anyway_returns_nonempty:
  assumes "get_color_anyway pal cg cv = Some r"
  shows "palette_nonempty pal"
proof (rule get_color_anyway.raw_induct
    [where P = "\<lambda>pal cg cv r. palette_nonempty pal", OF _ assms], goal_cases)
  case (1 f pal cg cv r)
  show ?case
  proof (rule ccontr)
    assume e: "\<not> palette_nonempty pal"
    from 1(2) have "\<exists>cg' cv'. f pal cg' cv' = Some r"
      by (auto simp: get_color_empty [OF e] split: prod.splits if_splits)
    with 1(1) e show False by blast
  qed
qed

lemma get_color_anyway_within_2:
  "get_color_anyway_within 2 pal cg cv = get_color_anyway_within (Suc (Suc 0)) pal cg cv"
  by (simp add: numeral_2_eq_2)

lemma get_color_anyway_within_two:
  assumes "palette_nonempty pal" "palette_renderable pal"
  shows "\<exists>clr cg' cv'.
           get_color_anyway_within 2 pal cg cv = Some (clr, cg', cv') \<and> clr \<noteq> 0"
  using assms
  by (auto simp: numeral_2_eq_2 get_color_def get_colorvar_def rewind_def
        palette_nonempty_def palette_renderable_def
      split: option.splits prod.splits)

lemma get_color_anyway_returns:
  assumes "palette_nonempty pal" "palette_renderable pal"
  shows "\<exists>clr cg' cv'. get_color_anyway pal cg cv = Some (clr, cg', cv') \<and> clr \<noteq> 0"
  using get_color_anyway_within_two [OF assms, of cg cv]
  by (blast dest: get_color_anyway_within_sound)

text \<open>
  Claim C7. With a non-empty palette (at least one base and one variant, none of the
  colours being the sentinel 0) \<^verbatim>\<open>get_color_anyway\<close> leaves its loop within two
  iterations, from any state of the two generators, and returns a colour other than 0.
  With an empty palette it never returns.
\<close>

theorem get_color_anyway_two_iterations:
  "(palette_nonempty pal \<and> palette_renderable pal \<longrightarrow>
      (\<exists>clr cg' cv'.
         get_color_anyway_within 2 pal cg cv = Some (clr, cg', cv') \<and>
         get_color_anyway pal cg cv = Some (clr, cg', cv') \<and> clr \<noteq> 0)) \<and>
   (\<not> palette_nonempty pal \<longrightarrow> get_color_anyway pal cg cv = None)"
proof (intro conjI impI)
  assume "palette_nonempty pal \<and> palette_renderable pal"
  then obtain clr cg' cv' where
    w: "get_color_anyway_within 2 pal cg cv = Some (clr, cg', cv')" and c: "clr \<noteq> 0"
    using get_color_anyway_within_two [of pal cg cv] by blast
  from w have "get_color_anyway pal cg cv = Some (clr, cg', cv')"
    by (rule get_color_anyway_within_sound)
  with w c show "\<exists>clr cg' cv'.
      get_color_anyway_within 2 pal cg cv = Some (clr, cg', cv') \<and>
      get_color_anyway pal cg cv = Some (clr, cg', cv') \<and> clr \<noteq> 0"
    by blast
next
  assume e: "\<not> palette_nonempty pal"
  show "get_color_anyway pal cg cv = None"
  proof (cases "get_color_anyway pal cg cv")
    case None
    then show ?thesis .
  next
    case (Some r)
    with e get_color_anyway_returns_nonempty show ?thesis by blast
  qed
qed

theorem get_color_anyway_two_iterations_witness:
  "palette_nonempty pal_one \<and> palette_renderable pal_one \<and>
   get_color_anyway_within 2 pal_one colorgen_new colorvargen_new =
     Some (0x00FF00, \<lparr>base_index = 1, L_INT = 0\<rparr>, \<lparr>cv_base = Some 0, variant_index = 1\<rparr>) \<and>
   get_color_anyway pal_one colorgen_new colorvargen_new =
     Some (0x00FF00, \<lparr>base_index = 1, L_INT = 0\<rparr>, \<lparr>cv_base = Some 0, variant_index = 1\<rparr>) \<and>
   \<not> palette_nonempty pal_none \<and>
   get_color_anyway pal_none colorgen_new colorvargen_new = None"
proof -
  have ok: "palette_nonempty pal_one \<and> palette_renderable pal_one"
    by (simp add: palette_nonempty_def palette_renderable_def pal_one_def)
  have w: "get_color_anyway_within 2 pal_one colorgen_new colorvargen_new =
     Some (0x00FF00, \<lparr>base_index = 1, L_INT = 0\<rparr>, \<lparr>cv_base = Some 0, variant_index = 1\<rparr>)"
    by (simp add: get_color_anyway_within_2 get_color_def get_colorvar_def rewind_def
          pal_one_def colorgen_new_def colorvargen_new_def)
  have e: "\<not> palette_nonempty pal_none"
    by (simp add: palette_nonempty_def pal_none_def)
  from get_color_anyway_two_iterations [of pal_one colorgen_new colorvargen_new] ok w
  have "get_color_anyway pal_one colorgen_new colorvargen_new =
     Some (0x00FF00, \<lparr>base_index = 1, L_INT = 0\<rparr>, \<lparr>cv_base = Some 0, variant_index = 1\<rparr>)"
    by auto
  moreover from get_color_anyway_two_iterations [of pal_none colorgen_new colorvargen_new] e
  have "get_color_anyway pal_none colorgen_new colorvargen_new = None"
    by blast
  ultimately show ?thesis using ok w e by blast
qed

section \<open>Properties of the graph callback\<close>

lemma gr_heap_upd_same: "gr_heap w a = Some g \<Longrightarrow> w\<lparr>gr_heap := (gr_heap w)(a \<mapsto> g)\<rparr> = w"
  by (simp add: map_upd_triv)

lemma user_refresh_soft:
  "node_map g \<noteq> Map.empty \<Longrightarrow> refresh_mode g = rfm_soft \<Longrightarrow> user_refresh f g = g"
  by (simp add: user_refresh_def rfm_soft_def rfm_rebuild_def)

text \<open>
  Claim C8. For a live graph context whose node map is non-empty and whose refresh mode is
  soft, a paint pull returns 1 and leaves the whole state as it was, whatever the converter
  is (it is not called); so does any number of successive pulls. The node map afterwards is
  the one before.
\<close>

theorem soft_draw_pull_keeps_node_map:
  assumes "gr_heap w this = Some g" "node_map g \<noteq> Map.empty" "refresh_mode g = rfm_soft"
  shows "gr_callback f this grcode_user_refresh w = Inr (1, no_out, w) \<and>
         draw_pulls f this n w = Inr w"
proof -
  have one: "gr_callback f this grcode_user_refresh w = Inr (1, no_out, w)"
    using assms by (simp add: gr_callback_def user_refresh_soft gr_heap_upd_same)
  have "draw_pulls f this n w = Inr w"
    by (induction n) (simp_all add: one)
  with one show ?thesis by simp
qed

theorem soft_draw_pull_keeps_node_map_witness:
  "gr_heap world_built 0 = Some g_built \<and> node_map g_built \<noteq> Map.empty \<and>
   refresh_mode g_built = rfm_soft \<and>
   gr_callback conv_one 0 grcode_user_refresh world_built = Inr (1, no_out, world_built) \<and>
   draw_pulls conv_one 0 2 world_built = Inr world_built"
proof -
  have h: "gr_heap world_built 0 = Some g_built" "node_map g_built \<noteq> Map.empty"
    "refresh_mode g_built = rfm_soft"
    by (simp_all add: world_built_def gschooser_new_def g_built_def g_stale_def grdata_new_def)
  from soft_draw_pull_keeps_node_map [OF h, of conv_one 2] h show ?thesis by simp
qed

text \<open>
  Claim C2, as amended. A paint pull on a live graph context whose node map is empty or
  whose refresh mode is rebuild returns 1 and stores what the converter makes of the node
  map; the highlight map \<^verbatim>\<open>sel_nodes\<close> is left as it was.
\<close>

theorem rebuild_draw_pull_keeps_highlight:
  assumes "gr_heap w this = Some g"
    and "node_map g = Map.empty \<or> refresh_mode g = rfm_rebuild"
  shows "gr_callback f this grcode_user_refresh w =
           Inr (1, no_out, w\<lparr>gr_heap := (gr_heap w)(this \<mapsto> user_refresh f g)\<rparr>) \<and>
         node_map (user_refresh f g) = f (ea g) (node_map g) \<and>
         sel_nodes (user_refresh f g) = sel_nodes g"
  using assms by (auto simp add: gr_callback_def user_refresh_def)

theorem rebuild_draw_pull_keeps_highlight_witness:
  "gr_heap world_stale 0 = Some g_stale \<and> node_map g_stale = Map.empty \<and>
   gr_callback conv_one 0 grcode_user_refresh world_stale =
     Inr (1, no_out, world_stale\<lparr>gr_heap := (gr_heap world_stale)(0 \<mapsto> user_refresh conv_one g_stale)\<rparr>) \<and>
   node_map (user_refresh conv_one g_stale) = conv_one (ea g_stale) (node_map g_stale) \<and>
   sel_nodes (user_refresh conv_one g_stale) = sel_nodes g_stale"
proof -
  have h: "gr_heap world_stale 0 = Some g_stale"
    by (simp add: world_stale_def gschooser_new_def)
  have e: "node_map g_stale = Map.empty"
    by (simp add: g_stale_def grdata_new_def)
  from rebuild_draw_pull_keeps_highlight [OF h, of conv_one] e h show ?thesis by simp
qed

text \<open>
  The claim as stated fails: the context \<open>g_stale\<close> has an empty node map and a highlight
  for node 7; the pull rebuilds the node map, which then holds node 1 only, and node 7 is
  still highlighted.
\<close>

theorem rebuild_draw_pull_stale_highlight:
  "gr_callback conv_one 0 grcode_user_refresh world_stale = Inr (1, no_out, world_built) \<and>
   gr_heap world_built 0 = Some g_built \<and>
   sel_nodes g_built 7 = Some 255 \<and> node_map g_built 7 = None \<and>
   \<not> dom (sel_nodes g_built) \<subseteq> dom (node_map g_built)"
  by (simp add: gr_callback_def user_refresh_def world_stale_def world_built_def
        gschooser_new_def g_built_def g_stale_def grdata_new_def conv_one_def)

text \<open>
  Claim C9, as amended. The destroy notification on a live graph context returns 1,
  nulls the chooser's member \<^verbatim>\<open>gr\<close> when \<^verbatim>\<open>parent_ref\<close> is set, and releases the
  context (whose \<^verbatim>\<open>gv\<close> and \<^verbatim>\<open>form\<close> it has nulled just before). The transition is not
  idempotent: a second destroy notification for the same context reads released memory.
\<close>

theorem destroyed_releases_context:
  assumes "gr_heap w this = Some g"
  shows "gr_callback f this grcode_destroyed w =
           Inr (1, no_out, w\<lparr>gr := (if parent_ref g = None then gr w else None),
                              gr_heap := (gr_heap w)(this := None)\<rparr>) \<and>
         gr_callback f this grcode_destroyed
           (w\<lparr>gr := (if parent_ref g = None then gr w else None),
              gr_heap := (gr_heap w)(this := None)\<rparr>) = Inl UseAfterFree"
  using assms
  by (cases "parent_ref g")
     (auto simp add: gr_callback_def destroyed_def Let_def split: grdata_ref.splits)

theorem destroyed_releases_context_witness:
  "gr_heap world_built 0 = Some g_built \<and>
   gr_callback conv_one 0 grcode_destroyed world_built = Inr (1, no_out, world_torn_down) \<and>
   gr world_torn_down = None \<and> gr_heap world_torn_down 0 = None"
proof -
  have h: "gr_heap world_built 0 = Some g_built"
    by (simp add: world_built_def gschooser_new_def)
  have p: "parent_ref g_built = Some chooser_gr"
    by (simp add: g_built_def g_stale_def)
  have e: "world_built\<lparr>gr := None, gr_heap := (gr_heap world_built)(0 := None)\<rparr> = world_torn_down"
    by (simp add: world_built_def world_torn_down_def gschooser_new_def)
  from destroyed_releases_context [OF h, of conv_one] p e h show ?thesis
    by (simp add: world_torn_down_def gschooser_new_def)
qed

text \<open>
  The claim as stated fails: after the destroy notification on \<open>world_built\<close> the context
  at address 0 is released, and a second destroy notification dereferences it.
\<close>

theorem second_destroyed_use_after_free:
  "gr_callback conv_one 0 grcode_destroyed world_built = Inr (1, no_out, world_torn_down) \<and>
   gr_callback conv_one 0 grcode_destroyed world_torn_down = Inl UseAfterFree"
  by (simp add: gr_callback_def destroyed_def world_built_def world_torn_down_def
        gschooser_new_def g_built_def g_stale_def)

section \<open>Properties of load_file\<close>

lemma push_nls_eq:
  "push_nls a gi li nls rows = rows @ map (\<lambda>(k, nl). nl_row a gi k) (enumerate li nls)"
  by (induction nls arbitrary: li rows) simp_all

lemma push_groups_eq:
  "push_groups a gi gds rows =
     rows @ concat (map (\<lambda>(k, gd). gd_row a k #
                          map (\<lambda>(li, nl). nl_row a k li) (enumerate 0 (nodegroups gd)))
                      (enumerate gi gds))"
  by (induction gds arbitrary: gi rows) (simp_all add: push_nls_eq)

lemma length_group_rows:
  "length (concat (map (\<lambda>(k, gd). gd_row a k #
                          map (\<lambda>(li, nl). nl_row a k li) (enumerate 0 (nodegroups gd)))
                      (enumerate gi gds))) =
   (\<Sum>gd\<leftarrow>gds. 1 + length (nodegroups gd))"
  by (induction gds arbitrary: gi) simp_all

lemma length_preorder_rows:
  "length (preorder_rows a t) = 1 + (\<Sum>gd\<leftarrow>groups t. 1 + length (nodegroups gd))"
  by (simp add: preorder_rows_def length_group_rows)

lemma load_file_parsed:
  assumes "parse fn = Some t" "delete_gm w = Inr w0"
  shows "load_file parse fn w =
           Inr (True, w0\<lparr>gm_heap := (gm_heap w0)(next_addr w0 \<mapsto> t),
                          gm := Some (next_addr w0),
                          next_addr := Suc (next_addr w0),
                          ch_nodes := ch_nodes w0 @ preorder_rows (next_addr w0) t\<rparr>)"
  using assms
  by (simp add: load_file_def new_gm_def Let_def push_groups_eq preorder_rows_def)

lemma load_file_failed:
  assumes "parse fn = None" "delete_gm w = Inr w0"
  shows "load_file parse fn w =
           Inr (False, w0\<lparr>gm_heap := (gm_heap w0)(next_addr w0 := None),
                           gm := Some (next_addr w0),
                           next_addr := Suc (next_addr w0),
                           msgs := msgs w0 @ [parse_error_msg fn]\<rparr>)"
  using assms
  by (simp add: load_file_def new_gm_def Let_def)

lemma delete_gm_null: "gm w = None \<Longrightarrow> delete_gm w = Inr w"
  by (simp add: delete_gm_def)

lemma delete_gm_live:
  "gm w = Some b \<Longrightarrow> gm_heap w b = Some t0 \<Longrightarrow>
   delete_gm w = Inr (w\<lparr>gm_heap := (gm_heap w)(b := None)\<rparr>)"
  by (simp add: delete_gm_def)

lemma preorder_rows_tree_one:
  "preorder_rows a tree_one = [file_row a, gd_row a 0, nl_row a 0 0, nl_row a 0 1]"
  by (simp add: preorder_rows_def tree_one_def enumerate_eq_zip upt_rec)

lemma preorder_rows_tree_two: "preorder_rows a tree_two = [file_row a, gd_row a 0]"
  by (simp add: preorder_rows_def tree_two_def enumerate_eq_zip upt_rec)

text \<open>
  The pointer stored in a list row designates the node list at that position of the tree,
  as long as the tree is live.
\<close>

lemma nl_row_deref:
  assumes "gm_heap w a = Some t" "gi < length (groups t)"
    and "li < length (nodegroups (groups t ! gi))"
  shows "deref_nl w (cn_nl (nl_row a gi li)) = Inr (nodegroups (groups t ! gi) ! li)"
  using assms by (simp add: deref_nl_def deref_ngl_def nl_row_def)

text \<open>
  The rows that \<^verbatim>\<open>load_file\<close> pushes for a tree, read in a state where the tree is live,
  are the rows of \<open>SelectableList_build\<close>: same kinds, same order, each referring to its
  part of the tree.
\<close>

lemma row_of_file_row:
  "gm_heap w a = Some t \<Longrightarrow> row_of w (file_row a) = Inr (FileRow t)"
  by (simp add: row_of_def file_row_def deref_gm_def)

lemma row_of_gd_row:
  "gm_heap w a = Some t \<Longrightarrow> gi < length (groups t) \<Longrightarrow>
   row_of w (gd_row a gi) = Inr (GroupRow (groups t ! gi) (nodegroups (groups t ! gi)))"
  by (simp add: row_of_def gd_row_def deref_gd_def deref_ngl_def)

lemma row_of_nl_row:
  "gm_heap w a = Some t \<Longrightarrow> gi < length (groups t) \<Longrightarrow>
   li < length (nodegroups (groups t ! gi)) \<Longrightarrow>
   row_of w (nl_row a gi li) =
     Inr (ListRow (nodegroups (groups t ! gi) ! li) (nodegroups (groups t ! gi)) (groups t ! gi))"
  by (simp add: row_of_def nl_row_def deref_gd_def deref_ngl_def deref_nl_def)

lemma map_enumerate_nth:
  assumes "\<And>i. i < length xs \<Longrightarrow> f (n + i) (xs ! i) = g (xs ! i)"
  shows "map (\<lambda>(i, x). f i x) (enumerate n xs) = map g xs"
  using assms
proof (induction xs arbitrary: n)
  case Nil
  then show ?case by simp
next
  case (Cons x xs)
  have "f n x = g x" using Cons.prems [of 0] by simp
  moreover have "map (\<lambda>(i, x). f i x) (enumerate (Suc n) xs) = map g xs"
  proof (rule Cons.IH)
    fix i assume "i < length xs"
    then show "f (Suc n + i) (xs ! i) = g (xs ! i)"
      using Cons.prems [of "Suc i"] by simp
  qed
  ultimately show ?case by simp
qed

lemma rows_of_preorder_rows:
  assumes "gm_heap w a = Some t"
  shows "map (row_of w) (preorder_rows a t) = map Inr (SelectableList_build t)"
proof -
  have inner: "map (\<lambda>(li, nl). row_of w (nl_row a gi li)) (enumerate 0 (nodegroups (groups t ! gi))) =
      map (\<lambda>nl. Inr (ListRow nl (nodegroups (groups t ! gi)) (groups t ! gi)))
          (nodegroups (groups t ! gi))"
    if "gi < length (groups t)" for gi
    by (rule map_enumerate_nth) (simp add: row_of_nl_row [OF assms that])
  have "map (\<lambda>(gi, gd). map (row_of w)
            (gd_row a gi # map (\<lambda>(li, nl). nl_row a gi li) (enumerate 0 (nodegroups gd))))
          (enumerate 0 (groups t)) =
        map (\<lambda>gd. map Inr (GroupRow gd (nodegroups gd) #
              map (\<lambda>nl. ListRow nl (nodegroups gd) gd) (nodegroups gd))) (groups t)"
  proof (rule map_enumerate_nth)
    fix gi assume g: "gi < length (groups t)"
    show "map (row_of w) (gd_row a (0 + gi) #
            map (\<lambda>(li, nl). nl_row a (0 + gi) li) (enumerate 0 (nodegroups (groups t ! gi)))) =
          map Inr (GroupRow (groups t ! gi) (nodegroups (groups t ! gi)) #
            map (\<lambda>nl. ListRow nl (nodegroups (groups t ! gi)) (groups t ! gi))
                (nodegroups (groups t ! gi)))"
      using inner [OF g]
      by (simp add: row_of_gd_row [OF assms g] comp_def case_prod_unfold)
  qed
  then show ?thesis
    by (simp add: preorder_rows_def SelectableList_build_def row_of_file_row [OF assms]
          map_concat comp_def case_prod_unfold)
qed

lemma length_SelectableList_build:
  "length (SelectableList_build t) = 1 + (\<Sum>gd\<leftarrow>groups t. 1 + length (nodegroups gd))"
  by (simp add: SelectableList_build_def length_concat comp_def)

lemma SelectableList_build_tree_one:
  "SelectableList_build tree_one =
     [FileRow tree_one,
      GroupRow (groups tree_one ! 0) [[sample_node 1, sample_node 2], [sample_node 3]],
      ListRow [sample_node 1, sample_node 2]
        [[sample_node 1, sample_node 2], [sample_node 3]] (groups tree_one ! 0),
      ListRow [sample_node 3]
        [[sample_node 1, sample_node 2], [sample_node 3]] (groups tree_one ! 0)]"
  by (simp add: SelectableList_build_def tree_one_def)

text \<open>
  Claim C6 (the code departs from it). What \<^verbatim>\<open>load_file\<close> does for a file that parses:
  it returns true and appends to the row vector the rows of the tree, which read as one
  file row, then for each group one group row followed by one list row per node list; so
  \<^verbatim>\<open>sizer\<close> grows by 1 plus, summed over the groups, 1 plus the number of node lists. The
  count of the claim is reached on a load into an empty row vector only: the rows of an
  earlier load are still counted.
\<close>

theorem load_file_row_count:
  assumes "parse fn = Some t"
    and "gm w = None \<or> (\<exists>b t0. gm w = Some b \<and> gm_heap w b = Some t0)"
  shows "\<exists>w' rows.
           load_file parse fn w = Inr (True, w') \<and>
           ch_nodes w' = ch_nodes w @ rows \<and>
           map (row_of w') rows = map Inr (SelectableList_build t) \<and>
           sizer w' = sizer w + (1 + (\<Sum>gd\<leftarrow>groups t. 1 + length (nodegroups gd)))"
proof -
  from assms(2) obtain w0 where
    d: "delete_gm w = Inr w0" and c: "ch_nodes w0 = ch_nodes w"
    by (auto simp add: delete_gm_def)
  let ?a = "next_addr w0"
  let ?w' = "w0\<lparr>gm_heap := (gm_heap w0)(?a \<mapsto> t), gm := Some ?a, next_addr := Suc ?a,
                 ch_nodes := ch_nodes w0 @ preorder_rows ?a t\<rparr>"
  have l: "load_file parse fn w = Inr (True, ?w')"
    using load_file_parsed [of parse fn t w w0] assms(1) d by simp
  have "gm_heap ?w' ?a = Some t" by simp
  then have r: "map (row_of ?w') (preorder_rows ?a t) = map Inr (SelectableList_build t)"
    by (rule rows_of_preorder_rows)
  have "ch_nodes ?w' = ch_nodes w @ preorder_rows ?a t"
    by (simp add: c)
  moreover have "sizer ?w' = sizer w + (1 + (\<Sum>gd\<leftarrow>groups t. 1 + length (nodegroups gd)))"
    by (simp add: sizer_def c length_preorder_rows)
  ultimately show ?thesis using l r by blast
qed

theorem load_file_row_count_witness:
  "parse_sample ''f1.bbgroup'' = Some tree_one \<and> gm gschooser_new = None \<and>
   (\<exists>w'. load_file parse_sample ''f1.bbgroup'' gschooser_new = Inr (True, w') \<and>
         map (row_of w') (ch_nodes w') = map Inr (SelectableList_build tree_one) \<and>
         sizer w' = 4) \<and>
   parse_sample ''f2.bbgroup'' = Some tree_two \<and> gm world_loaded = Some 0 \<and>
   gm_heap world_loaded 0 = Some tree_one \<and>
   (\<exists>w'. load_file parse_sample ''f2.bbgroup'' world_loaded = Inr (True, w') \<and>
         sizer w' = 6 \<and>
         1 + (\<Sum>gd\<leftarrow>groups tree_two. 1 + length (nodegroups gd)) = 2)"
proof -
  have h1: "parse_sample ''f1.bbgroup'' = Some tree_one" "gm gschooser_new = None"
    by (simp_all add: parse_sample_def gschooser_new_def)
  have h2: "parse_sample ''f2.bbgroup'' = Some tree_two" "gm world_loaded = Some 0"
    "gm_heap world_loaded 0 = Some tree_one"
    by (simp_all add: parse_sample_def world_loaded_def gschooser_new_def)
  have n1: "ch_nodes gschooser_new = []" "sizer gschooser_new = 0"
    "1 + (\<Sum>gd\<leftarrow>groups tree_one. 1 + length (nodegroups gd)) = 4"
    by (simp_all add: gschooser_new_def sizer_def tree_one_def)
  have n2: "sizer world_loaded = 4"
    "1 + (\<Sum>gd\<leftarrow>groups tree_two. 1 + length (nodegroups gd)) = 2"
    by (simp_all add: world_loaded_def gschooser_new_def sizer_def tree_two_def)
  from load_file_row_count [of parse_sample "''f1.bbgroup''" tree_one gschooser_new] h1
  obtain w1 rows1 where
    "load_file parse_sample ''f1.bbgroup'' gschooser_new = Inr (True, w1)"
    "ch_nodes w1 = ch_nodes gschooser_new @ rows1"
    "map (row_of w1) rows1 = map Inr (SelectableList_build tree_one)"
    "sizer w1 = sizer gschooser_new +
       (1 + (\<Sum>gd\<leftarrow>groups tree_one. 1 + length (nodegroups gd)))"
    by blast
  then have 1: "\<exists>w'. load_file parse_sample ''f1.bbgroup'' gschooser_new = Inr (True, w') \<and>
         map (row_of w') (ch_nodes w') = map Inr (SelectableList_build tree_one) \<and>
         sizer w' = 4"
    using n1 by (intro exI [of _ w1]) simp
  from load_file_row_count [of parse_sample "''f2.bbgroup''" tree_two world_loaded] h2
  obtain w2 rows2 where
    "load_file parse_sample ''f2.bbgroup'' world_loaded = Inr (True, w2)"
    "sizer w2 = sizer world_loaded +
       (1 + (\<Sum>gd\<leftarrow>groups tree_two. 1 + length (nodegroups gd)))"
    by blast
  then have 2: "\<exists>w'. load_file parse_sample ''f2.bbgroup'' world_loaded = Inr (True, w') \<and>
         sizer w' = 6 \<and>
         1 + (\<Sum>gd\<leftarrow>groups tree_two. 1 + length (nodegroups gd)) = 2"
    using n2 by (intro exI [of _ w2]) simp
  from h1 h2 1 2 show ?thesis by blast
qed

text \<open>
  Claim C4 (the code departs from it). What \<^verbatim>\<open>load_file\<close> does on a second successful
  load: the rows of the new tree are appended to the rows already there, which stay in the
  vector although the tree they point into has been deleted.
\<close>

theorem load_file_keeps_old_rows:
  assumes "parse fn = Some t" "gm w = Some b" "gm_heap w b = Some t0" "b < next_addr w"
  shows "\<exists>w'. load_file parse fn w = Inr (True, w') \<and>
              ch_nodes w' = ch_nodes w @ preorder_rows (next_addr w) t \<and>
              gm_heap w' b = None"
  using load_file_parsed [of parse fn t w "w\<lparr>gm_heap := (gm_heap w)(b := None)\<rparr>"]
    delete_gm_live [of w b t0] assms
  by simp

theorem load_file_keeps_old_rows_witness:
  "parse_sample ''f2.bbgroup'' = Some tree_two \<and> gm world_loaded = Some 0 \<and>
   gm_heap world_loaded 0 = Some tree_one \<and> 0 < next_addr world_loaded \<and>
   (\<exists>w'. load_file parse_sample ''f2.bbgroup'' world_loaded = Inr (True, w') \<and>
         ch_nodes w' =
           [file_row 0, gd_row 0 0, nl_row 0 0 0, nl_row 0 0 1, file_row 1, gd_row 1 0] \<and>
         gm_heap w' 0 = None)"
proof -
  have h: "parse_sample ''f2.bbgroup'' = Some tree_two" "gm world_loaded = Some 0"
    "gm_heap world_loaded 0 = Some tree_one" "0 < next_addr world_loaded"
    by (simp_all add: parse_sample_def world_loaded_def gschooser_new_def)
  have "ch_nodes world_loaded @ preorder_rows (next_addr world_loaded) tree_two =
          [file_row 0, gd_row 0 0, nl_row 0 0 0, nl_row 0 0 1, file_row 1, gd_row 1 0]"
    by (simp add: world_loaded_def gschooser_new_def preorder_rows_tree_two)
  with load_file_keeps_old_rows [of parse_sample "''f2.bbgroup''" tree_two world_loaded 0
      tree_one] h
  show ?thesis by simp
qed

text \<open>
  Claim C3 (the code departs from it). What \<^verbatim>\<open>load_file\<close> does when parsing fails while
  a tree is loaded: it prints the message and returns false with the rows unchanged, but
  the tree loaded before has been deleted, and \<^verbatim>\<open>gm\<close> holds the address of the new
  group manager, deleted too.
\<close>

theorem load_file_failure_releases_tree:
  assumes "parse fn = None" "gm w = Some b" "gm_heap w b = Some t0" "b < next_addr w"
  shows "\<exists>w'. load_file parse fn w = Inr (False, w') \<and>
              msgs w' = msgs w @ [parse_error_msg fn] \<and>
              ch_nodes w' = ch_nodes w \<and>
              gm_heap w' b = None \<and>
              gm w' = Some (next_addr w) \<and>
              deref_gm w' (gm w') = Inl UseAfterFree"
  using load_file_failed [of parse fn w "w\<lparr>gm_heap := (gm_heap w)(b := None)\<rparr>"]
    delete_gm_live [of w b t0] assms
  by (simp add: deref_gm_def)

theorem load_file_failure_releases_tree_witness:
  "parse_sample ''missing.bbgroup'' = None \<and> gm world_loaded = Some 0 \<and>
   gm_heap world_loaded 0 = Some tree_one \<and> 0 < next_addr world_loaded \<and>
   (\<exists>w'. load_file parse_sample ''missing.bbgroup'' world_loaded = Inr (False, w') \<and>
         msgs w' = [parse_error_msg ''missing.bbgroup''] \<and>
         ch_nodes w' = [file_row 0, gd_row 0 0, nl_row 0 0 0, nl_row 0 0 1] \<and>
         gm_heap w' 0 = None \<and> gm w' = Some 1 \<and>
         deref_gm w' (gm w') = Inl UseAfterFree)"
proof -
  have h: "parse_sample ''missing.bbgroup'' = None" "gm world_loaded = Some 0"
    "gm_heap world_loaded 0 = Some tree_one" "0 < next_addr world_loaded"
    by (simp_all add: parse_sample_def world_loaded_def gschooser_new_def)
  have "msgs world_loaded = []" "next_addr world_loaded = 1"
    "ch_nodes world_loaded = [file_row 0, gd_row 0 0, nl_row 0 0 0, nl_row 0 0 1]"
    by (simp_all add: world_loaded_def gschooser_new_def)
  with load_file_failure_releases_tree [of parse_sample "''missing.bbgroup''" world_loaded 0
      tree_one] h
  show ?thesis by simp
qed

section \<open>Properties of enter\<close>

lemma with_highlight_same: "gr_heap w a = Some g \<Longrightarrow> with_highlight a g (sel_nodes g) w = w"
  by (simp add: with_highlight_def map_upd_triv)

lemma with_highlight_twice:
  "with_highlight a (g\<lparr>sel_nodes := h1\<rparr>) h2 (with_highlight a g h1 w) = with_highlight a g h2 w"
  by (simp add: with_highlight_def)

lemma with_highlight_sel [simp]:
  "gr (with_highlight a g h w) = gr w"
  "gr_heap (with_highlight a g h w) a = Some (g\<lparr>sel_nodes := h\<rparr>)"
  "gm (with_highlight a g h w) = gm w"
  "gm_heap (with_highlight a g h w) = gm_heap w"
  "ch_nodes (with_highlight a g h w) = ch_nodes w"
  "refreshed (with_highlight a g h w) = refreshed w"
  by (simp_all add: with_highlight_def)

lemma deref_nl_with_highlight [simp]:
  "deref_nl (with_highlight a g h w) p = deref_nl w p"
  by (simp add: deref_nl_def deref_ngl_def split: option.splits)

lemma set_sel_node_eq:
  "gr w = Some a \<Longrightarrow> gr_heap w a = Some g \<Longrightarrow>
   set_sel_node i clr w = Inr (with_highlight a g ((sel_nodes g)(i \<mapsto> clr)) w)"
  by (simp add: set_sel_node_def)

lemma dom_paint: "dom (\<lambda>i. if i \<in> A then Some c else m i) = dom m \<union> A"
  by (auto split: if_splits)

text \<open>One node list: its ids get the colour, the other entries stay.\<close>

lemma color_nodes_eq:
  assumes "gr w = Some a" "gr_heap w a = Some g"
  shows "color_nodes clr nl w =
           Inr (with_highlight a g
                  (\<lambda>i. if i \<in> nid ` set nl then Some clr else sel_nodes g i) w)"
  using assms
proof (induction nl arbitrary: w g)
  case Nil
  then show ?case by (simp add: with_highlight_same)
next
  case (Cons nd nds)
  let ?h1 = "(sel_nodes g)(nid nd \<mapsto> clr)"
  let ?g1 = "g\<lparr>sel_nodes := ?h1\<rparr>"
  let ?w1 = "with_highlight a g ?h1 w"
  have s: "set_sel_node (nid nd) clr w = Inr ?w1"
    using Cons.prems by (rule set_sel_node_eq)
  have f: "(\<lambda>i. if i \<in> nid ` set nds then Some clr else sel_nodes ?g1 i) =
           (\<lambda>i. if i \<in> nid ` set (nd # nds) then Some clr else sel_nodes g i)"
    by (auto simp: fun_eq_iff)
  have "gr ?w1 = Some a" "gr_heap ?w1 a = Some ?g1"
    using Cons.prems by simp_all
  from Cons.IH [OF this]
  have "color_nodes clr nds ?w1 =
          Inr (with_highlight a ?g1
                 (\<lambda>i. if i \<in> nid ` set nds then Some clr else sel_nodes ?g1 i) ?w1)" .
  then have "color_nodes clr nds ?w1 =
          Inr (with_highlight a g
                 (\<lambda>i. if i \<in> nid ` set (nd # nds) then Some clr else sel_nodes g i) w)"
    unfolding f with_highlight_twice .
  then show ?case using s by simp
qed

text \<open>
  The node lists of one group, and all groups of a tree: with a non-empty palette the
  loops return, the ids of the lists are added to the highlight map, and the entries of
  other ids stay.
\<close>

lemma color_nodegroups_ok:
  assumes "palette_nonempty pal" "palette_renderable pal" "gr w = Some a" "gr_heap w a = Some g"
  shows "\<exists>cg' cv' h.
           color_nodegroups pal ngl cg cv w = Some (Inr (cg', cv', with_highlight a g h w)) \<and>
           dom h = dom (sel_nodes g) \<union> nid ` set (concat ngl) \<and>
           (\<forall>i. i \<notin> nid ` set (concat ngl) \<longrightarrow> h i = sel_nodes g i)"
  using assms(3,4)
proof (induction ngl arbitrary: cg cv w g)
  case Nil
  then show ?case
    by (intro exI [of _ cg] exI [of _ cv] exI [of _ "sel_nodes g"])
       (simp add: with_highlight_same)
next
  case (Cons nl nls)
  obtain clr cg1 cv1 where c: "get_color_anyway pal cg cv = Some (clr, cg1, cv1)"
    using get_color_anyway_returns [OF assms(1,2), of cg cv] by blast
  let ?h1 = "\<lambda>i. if i \<in> nid ` set nl then Some clr else sel_nodes g i"
  let ?g1 = "g\<lparr>sel_nodes := ?h1\<rparr>"
  let ?w1 = "with_highlight a g ?h1 w"
  have n: "color_nodes clr nl w = Inr ?w1"
    using Cons.prems by (rule color_nodes_eq)
  have "gr ?w1 = Some a" "gr_heap ?w1 a = Some ?g1"
    using Cons.prems by simp_all
  from Cons.IH [OF this, of cg1 cv1] obtain cg' cv' h where
    r: "color_nodegroups pal nls cg1 cv1 ?w1 = Some (Inr (cg', cv', with_highlight a ?g1 h ?w1))"
    and d: "dom h = dom (sel_nodes ?g1) \<union> nid ` set (concat nls)"
    and k: "\<forall>i. i \<notin> nid ` set (concat nls) \<longrightarrow> h i = sel_nodes ?g1 i"
    by blast
  have "color_nodegroups pal (nl # nls) cg cv w = Some (Inr (cg', cv', with_highlight a g h w))"
    using c n r by (simp add: with_highlight_twice)
  moreover have e: "nid ` set (concat (nl # nls)) = nid ` set nl \<union> nid ` set (concat nls)"
    by (simp add: image_Un)
  moreover have "dom h = dom (sel_nodes g) \<union> (nid ` set nl \<union> nid ` set (concat nls))"
    using d by (simp add: dom_paint Un_assoc)
  moreover have "\<forall>i. i \<notin> nid ` set nl \<union> nid ` set (concat nls) \<longrightarrow> h i = sel_nodes g i"
  proof (intro allI impI)
    fix i
    assume "i \<notin> nid ` set nl \<union> nid ` set (concat nls)"
    then have "i \<notin> nid ` set nl" "i \<notin> nid ` set (concat nls)" by simp_all
    with k show "h i = sel_nodes g i" by simp
  qed
  ultimately show ?case by (simp only:) blast
qed

lemma color_groups_ok:
  assumes "palette_nonempty pal" "palette_renderable pal" "gr w = Some a" "gr_heap w a = Some g"
  shows "\<exists>cg' cv' h.
           color_groups pal gds cg cv w = Some (Inr (cg', cv', with_highlight a g h w)) \<and>
           dom h = dom (sel_nodes g) \<union> nid ` set (concat (concat (map nodegroups gds))) \<and>
           (\<forall>i. i \<notin> nid ` set (concat (concat (map nodegroups gds))) \<longrightarrow> h i = sel_nodes g i)"
  using assms(3,4)
proof (induction gds arbitrary: cg cv w g)
  case Nil
  then show ?case
    by (intro exI [of _ cg] exI [of _ cv] exI [of _ "sel_nodes g"])
       (simp add: with_highlight_same)
next
  case (Cons gd gds)
  obtain ok cg1 cv1 where v: "get_colorvar pal cg cv = (ok, cg1, cv1)"
    by (cases "get_colorvar pal cg cv") auto
  from color_nodegroups_ok [OF assms(1,2) Cons.prems, of "nodegroups gd" cg1 cv1]
  obtain cg2 cv2 h1 where
    n: "color_nodegroups pal (nodegroups gd) cg1 cv1 w =
          Some (Inr (cg2, cv2, with_highlight a g h1 w))"
    and d1: "dom h1 = dom (sel_nodes g) \<union> nid ` set (concat (nodegroups gd))"
    and k1: "\<forall>i. i \<notin> nid ` set (concat (nodegroups gd)) \<longrightarrow> h1 i = sel_nodes g i"
    by blast
  let ?g1 = "g\<lparr>sel_nodes := h1\<rparr>"
  let ?w1 = "with_highlight a g h1 w"
  have "gr ?w1 = Some a" "gr_heap ?w1 a = Some ?g1"
    using Cons.prems by simp_all
  from Cons.IH [OF this, of cg2 cv2] obtain cg' cv' h where
    r: "color_groups pal gds cg2 cv2 ?w1 = Some (Inr (cg', cv', with_highlight a ?g1 h ?w1))"
    and d: "dom h = dom (sel_nodes ?g1) \<union> nid ` set (concat (concat (map nodegroups gds)))"
    and k: "\<forall>i. i \<notin> nid ` set (concat (concat (map nodegroups gds))) \<longrightarrow> h i = sel_nodes ?g1 i"
    by blast
  have "color_groups pal (gd # gds) cg cv w = Some (Inr (cg', cv', with_highlight a g h w))"
    using v n r by (simp add: bind_r_def with_highlight_twice)
  moreover have e: "nid ` set (concat (concat (map nodegroups (gd # gds)))) =
      nid ` set (concat (nodegroups gd)) \<union> nid ` set (concat (concat (map nodegroups gds)))"
    by (simp add: image_Un)
  moreover have "dom h = dom (sel_nodes g) \<union>
      (nid ` set (concat (nodegroups gd)) \<union> nid ` set (concat (concat (map nodegroups gds))))"
    using d d1 by (simp add: Un_assoc)
  moreover have "\<forall>i. i \<notin> nid ` set (concat (nodegroups gd)) \<union>
        nid ` set (concat (concat (map nodegroups gds))) \<longrightarrow> h i = sel_nodes g i"
  proof (intro allI impI)
    fix i
    assume "i \<notin> nid ` set (concat (nodegroups gd)) \<union>
        nid ` set (concat (concat (map nodegroups gds)))"
    then have "i \<notin> nid ` set (concat (nodegroups gd))"
      "i \<notin> nid ` set (concat (concat (map nodegroups gds)))" by simp_all
    with k k1 show "h i = sel_nodes g i" by simp
  qed
  ultimately show ?case by (simp only:) blast
qed

lemma get_color_anyway_fresh:
  assumes "b < bases pal" "v < variants pal" "shade pal b v \<noteq> 0"
  shows "get_color_anyway pal cg \<lparr>cv_base = Some b, variant_index = v\<rparr> =
           Some (shade pal b v, cg, \<lparr>cv_base = Some b, variant_index = Suc v\<rparr>)"
  using assms by (subst get_color_anyway.simps) (simp add: get_color_def)

lemma DECL_CG_first_base:
  "palette_nonempty pal \<Longrightarrow>
   get_colorvar pal DECL_CG_cg DECL_CG_cv =
     (True, \<lparr>base_index = 1, L_INT = - 15\<rparr>, \<lparr>cv_base = Some 0, variant_index = 0\<rparr>)"
  by (simp add: DECL_CG_cg_def DECL_CG_cv_def colorgen_new_def colorvargen_new_def
        get_colorvar_def palette_nonempty_def)

lemma pal_one_ok: "palette_nonempty pal_one" "palette_renderable pal_one"
  by (simp_all add: palette_nonempty_def palette_renderable_def pal_one_def)

lemma tree_ids_tree_one: "tree_ids tree_one = {1, 2, 3}"
  by (auto simp add: tree_ids_def tree_one_def sample_node_def)

lemma world_view_rows:
  "ch_nodes world_view = [file_row 0, gd_row 0 0, nl_row 0 0 0, nl_row 0 0 1]"
  "ch_nodes world_no_view = [file_row 0, gd_row 0 0, nl_row 0 0 0, nl_row 0 0 1]"
  by (simp_all add: world_view_def world_no_view_def world_loaded_def gschooser_new_def)

lemma world_view_list_row:
  "deref_nl world_view (cn_nl (nl_row 0 0 0)) = Inr [sample_node 1, sample_node 2]"
  "deref_nl world_no_view (cn_nl (nl_row 0 0 0)) = Inr [sample_node 1, sample_node 2]"
  by (simp_all add: deref_nl_def deref_ngl_def nl_row_def world_view_def world_no_view_def
        world_loaded_def gschooser_new_def tree_one_def)

text \<open>
  Claim C5, as amended. While a graph view is attached (the chooser's \<^verbatim>\<open>gr\<close> points to
  a live context whose \<^verbatim>\<open>gv\<close> is set) and the palette is non-empty, selecting a list row
  clears the highlight map, takes one colour from \<^verbatim>\<open>get_color_anyway\<close> (the first
  variant of the first base, not 0) and assigns it to every node id of the list: the
  highlight map then holds exactly those ids, all with that colour, and one refresh of the
  viewer is requested.
\<close>

theorem enter_list_row_colors_list:
  assumes "palette_nonempty pal" "palette_renderable pal"
    and "IS_SEL n" "n \<le> length (ch_nodes w)"
    and "type (ch_nodes w ! (n - 1)) = chnt_nl"
    and "deref_nl w (cn_nl (ch_nodes w ! (n - 1))) = Inr nl"
    and "gr w = Some a" "gr_heap w a = Some g" "gv g = Some v"
  shows "enter pal n w =
           Some (Inr ((with_highlight a g
                         (\<lambda>i. if i \<in> nid ` set nl then Some (shade pal 0 0) else None) w)
                      \<lparr>refreshed := refreshed w @ [v]\<rparr>)) \<and>
         shade pal 0 0 \<noteq> 0 \<and>
         dom (\<lambda>i. if i \<in> nid ` set nl then Some (shade pal 0 0) else None) = nid ` set nl"
proof -
  have c: "shade pal 0 0 \<noteq> 0" "0 < bases pal" "0 < variants pal"
    using assms(1,2) by (simp_all add: palette_nonempty_def palette_renderable_def)
  let ?w1 = "with_highlight a g Map.empty w"
  have n: "color_nodes (shade pal 0 0) nl ?w1 =
             Inr (with_highlight a g
                    (\<lambda>i. if i \<in> nid ` set nl then Some (shade pal 0 0) else None) w)"
  proof -
    have "gr ?w1 = Some a" "gr_heap ?w1 a = Some (g\<lparr>sel_nodes := Map.empty\<rparr>)"
      using assms(7) by simp_all
    from color_nodes_eq [OF this, of "shade pal 0 0" nl] show ?thesis
      by (simp add: with_highlight_twice cong: if_cong)
  qed
  have "enter_nl pal (ch_nodes w ! (n - 1)) ?w1 =
          Some (Inr (with_highlight a g
                       (\<lambda>i. if i \<in> nid ` set nl then Some (shade pal 0 0) else None) w))"
    using assms(6) c
    by (simp add: enter_nl_def DECL_CG_first_base [OF assms(1)] get_color_anyway_fresh
          bind_r_def n)
  then have "enter_nl_gd pal (ch_nodes w ! (n - 1)) w =
          Some (Inr ((with_highlight a g
                         (\<lambda>i. if i \<in> nid ` set nl then Some (shade pal 0 0) else None) w)
                      \<lparr>refreshed := refreshed w @ [v]\<rparr>))"
    using assms(5,7-9) by (simp add: enter_nl_gd_def bind_r_def)
  then have "enter pal n w =
          Some (Inr ((with_highlight a g
                         (\<lambda>i. if i \<in> nid ` set nl then Some (shade pal 0 0) else None) w)
                      \<lparr>refreshed := refreshed w @ [v]\<rparr>))"
    using assms(3-5) by (simp add: enter_def Let_def)
  moreover have "dom (\<lambda>i. if i \<in> nid ` set nl then Some (shade pal 0 0) else None) = nid ` set nl"
    by (auto split: if_splits)
  ultimately show ?thesis using c by blast
qed

theorem enter_list_row_colors_list_witness:
  "palette_nonempty pal_one \<and> palette_renderable pal_one \<and> IS_SEL 3 \<and>
   3 \<le> length (ch_nodes world_view) \<and> type (ch_nodes world_view ! (3 - 1)) = chnt_nl \<and>
   deref_nl world_view (cn_nl (ch_nodes world_view ! (3 - 1))) =
     Inr [sample_node 1, sample_node 2] \<and>
   gr world_view = Some 0 \<and> gr_heap world_view 0 = Some g_built \<and> gv g_built = Some 1 \<and>
   enter pal_one 3 world_view =
     Some (Inr ((with_highlight 0 g_built [1 \<mapsto> 65280, 2 \<mapsto> 65280] world_view)
                \<lparr>refreshed := [1]\<rparr>))"
proof -
  have h: "IS_SEL 3" "3 \<le> length (ch_nodes world_view)"
    "type (ch_nodes world_view ! (3 - 1)) = chnt_nl"
    "deref_nl world_view (cn_nl (ch_nodes world_view ! (3 - 1))) =
       Inr [sample_node 1, sample_node 2]"
    by (simp_all add: IS_SEL_def world_view_rows world_view_list_row) (simp add: nl_row_def)
  have g: "gr world_view = Some 0" "gr_heap world_view 0 = Some g_built" "gv g_built = Some 1"
    by (simp_all add: world_view_def g_built_def g_stale_def)
  have r: "refreshed world_view = []"
    by (simp add: world_view_def world_loaded_def gschooser_new_def)
  have m: "(\<lambda>i. if i \<in> nid ` set [sample_node 1, sample_node 2]
                 then Some (shade pal_one 0 0) else None) = [1 \<mapsto> 65280, 2 \<mapsto> 65280]"
    by (auto simp add: fun_eq_iff sample_node_def pal_one_def)
  from enter_list_row_colors_list [OF pal_one_ok h g]
  have "enter pal_one 3 world_view =
     Some (Inr ((with_highlight 0 g_built [1 \<mapsto> 65280, 2 \<mapsto> 65280] world_view)
                \<lparr>refreshed := [1]\<rparr>))"
    unfolding m r by simp
  with pal_one_ok h g show ?thesis by simp
qed

text \<open>
  The claim as stated fails: in \<open>world_no_view\<close> the context exists but its viewer pointer
  is null; selecting the list row of nodes 1 and 2 leaves the state as it is, with node 7
  still highlighted and nodes 1 and 2 not.
\<close>

theorem enter_list_row_without_view:
  "IS_SEL 3 \<and> type (ch_nodes world_no_view ! (3 - 1)) = chnt_nl \<and>
   deref_nl world_no_view (cn_nl (ch_nodes world_no_view ! (3 - 1))) =
     Inr [sample_node 1, sample_node 2] \<and>
   gr world_no_view = Some 0 \<and> gr_heap world_no_view 0 = Some g_no_view \<and>
   enter pal_one 3 world_no_view = Some (Inr world_no_view) \<and>
   sel_nodes g_no_view 7 = Some 255 \<and> sel_nodes g_no_view 1 = None \<and>
   dom (sel_nodes g_no_view) \<noteq> nid ` set [sample_node 1, sample_node 2]"
proof -
  have h: "IS_SEL 3" "type (ch_nodes world_no_view ! (3 - 1)) = chnt_nl"
    "deref_nl world_no_view (cn_nl (ch_nodes world_no_view ! (3 - 1))) =
       Inr [sample_node 1, sample_node 2]"
    by (simp_all add: IS_SEL_def world_view_rows world_view_list_row) (simp add: nl_row_def)
  have g: "gr world_no_view = Some 0" "gr_heap world_no_view 0 = Some g_no_view"
    "gv g_no_view = None"
    by (simp_all add: world_no_view_def g_no_view_def)
  have s: "sel_nodes g_no_view = [7 \<mapsto> 255]"
    by (simp add: g_no_view_def g_built_def g_stale_def)
  have e: "enter pal_one 3 world_no_view = Some (Inr world_no_view)"
    using h g by (simp add: enter_def IS_SEL_def world_view_rows enter_nl_gd_def)
  have "dom (sel_nodes g_no_view) \<noteq> nid ` set [sample_node 1, sample_node 2]"
    by (simp add: s sample_node_def)
  with h g e s show ?thesis by simp
qed

text \<open>
  Claim C10. When a group row or a list row is selected while no graph view is attached
  (the chooser's \<^verbatim>\<open>gr\<close> is null, or the context it points to has a null \<^verbatim>\<open>gv\<close>), the
  handler returns the state as it is: no colour is computed (the palette plays no role), the
  highlight map is neither cleared nor written, and no refresh is requested.
\<close>

theorem enter_without_view_is_noop:
  assumes "IS_SEL n" "n \<le> length (ch_nodes w)"
    and "type (ch_nodes w ! (n - 1)) = chnt_gd \<or> type (ch_nodes w ! (n - 1)) = chnt_nl"
    and "gr w = None \<or> (\<exists>a g. gr w = Some a \<and> gr_heap w a = Some g \<and> gv g = None)"
  shows "enter pal n w = Some (Inr w)"
  using assms by (auto simp add: enter_def Let_def enter_nl_gd_def)

theorem enter_without_view_is_noop_witness:
  "IS_SEL 2 \<and> 2 \<le> length (ch_nodes world_loaded) \<and>
   type (ch_nodes world_loaded ! (2 - 1)) = chnt_gd \<and> gr world_loaded = None \<and>
   enter pal_none 2 world_loaded = Some (Inr world_loaded) \<and>
   IS_SEL 3 \<and> 3 \<le> length (ch_nodes world_no_view) \<and>
   type (ch_nodes world_no_view ! (3 - 1)) = chnt_nl \<and>
   gr world_no_view = Some 0 \<and> gr_heap world_no_view 0 = Some g_no_view \<and>
   gv g_no_view = None \<and>
   enter pal_one 3 world_no_view = Some (Inr world_no_view)"
proof -
  have a: "IS_SEL 2" "2 \<le> length (ch_nodes world_loaded)"
    "type (ch_nodes world_loaded ! (2 - 1)) = chnt_gd" "gr world_loaded = None"
    by (simp_all add: IS_SEL_def world_loaded_def gschooser_new_def gd_row_def)
  have b: "IS_SEL 3" "3 \<le> length (ch_nodes world_no_view)"
    "type (ch_nodes world_no_view ! (3 - 1)) = chnt_nl"
    by (simp_all add: IS_SEL_def world_view_rows nl_row_def)
  have g: "gr world_no_view = Some 0" "gr_heap world_no_view 0 = Some g_no_view"
    "gv g_no_view = None"
    by (simp_all add: world_no_view_def g_no_view_def)
  from enter_without_view_is_noop [of 2 world_loaded pal_none] a
  have 1: "enter pal_none 2 world_loaded = Some (Inr world_loaded)" by simp
  from enter_without_view_is_noop [of 3 world_no_view pal_one] b g
  have 2: "enter pal_one 3 world_no_view = Some (Inr world_no_view)" by simp
  from a b g 1 2 show ?thesis by simp
qed

text \<open>
  Claim C1 (the code departs from it). What \<^verbatim>\<open>enter\<close> does on the file row, with a
  live tree, a live graph context and a non-empty palette: it returns, the state differs
  from the one before in the highlight map only (no refresh is requested), the ids of the
  tree are added to the map, and every entry for an id outside the tree is still there:
  the map is not cleared.
\<close>

theorem enter_file_row_keeps_stale_ids:
  assumes "palette_nonempty pal" "palette_renderable pal"
    and "IS_SEL n" "n \<le> length (ch_nodes w)"
    and "type (ch_nodes w ! (n - 1)) = chnt_gm"
    and "gm w = Some b" "gm_heap w b = Some t"
    and "gr w = Some a" "gr_heap w a = Some g"
  shows "\<exists>h. enter pal n w = Some (Inr (with_highlight a g h w)) \<and>
             dom h = dom (sel_nodes g) \<union> tree_ids t \<and>
             (\<forall>i. i \<notin> tree_ids t \<longrightarrow> h i = sel_nodes g i)"
proof -
  from color_groups_ok [OF assms(1,2,8,9), of "groups t" DECL_CG_cg DECL_CG_cv]
  obtain cg' cv' h where
    r: "color_groups pal (groups t) DECL_CG_cg DECL_CG_cv w =
          Some (Inr (cg', cv', with_highlight a g h w))"
    and dm: "dom h = dom (sel_nodes g) \<union> tree_ids t"
    and k: "\<forall>i. i \<notin> tree_ids t \<longrightarrow> h i = sel_nodes g i"
    unfolding tree_ids_def by blast
  have "enter_gm pal w = Some (Inr (with_highlight a g h w))"
    using assms(6,7) r by (simp add: enter_gm_def deref_gm_def bind_r_def)
  then have "enter pal n w = Some (Inr (with_highlight a g h w))"
    using assms(3-5) by (simp add: enter_def Let_def)
  with dm k show ?thesis by blast
qed

theorem enter_file_row_keeps_stale_ids_witness:
  "palette_nonempty pal_one \<and> palette_renderable pal_one \<and> IS_SEL 1 \<and>
   1 \<le> length (ch_nodes world_view) \<and> type (ch_nodes world_view ! (1 - 1)) = chnt_gm \<and>
   gm world_view = Some 0 \<and> gm_heap world_view 0 = Some tree_one \<and>
   gr world_view = Some 0 \<and> gr_heap world_view 0 = Some g_built \<and>
   sel_nodes g_built 7 = Some 255 \<and> tree_ids tree_one = {1, 2, 3} \<and>
   (\<exists>h. enter pal_one 1 world_view = Some (Inr (with_highlight 0 g_built h world_view)) \<and>
        dom h = {1, 2, 3, 7} \<and> h 7 = Some 255)"
proof -
  have h: "IS_SEL 1" "1 \<le> length (ch_nodes world_view)"
    "type (ch_nodes world_view ! (1 - 1)) = chnt_gm"
    by (simp_all add: IS_SEL_def world_view_rows file_row_def)
  have m: "gm world_view = Some 0" "gm_heap world_view 0 = Some tree_one"
    by (simp_all add: world_view_def world_loaded_def gschooser_new_def)
  have g: "gr world_view = Some 0" "gr_heap world_view 0 = Some g_built"
    by (simp_all add: world_view_def)
  have s: "sel_nodes g_built = [7 \<mapsto> 255]"
    by (simp add: g_built_def g_stale_def)
  from enter_file_row_keeps_stale_ids [OF pal_one_ok h m g] obtain hm where
    e: "enter pal_one 1 world_view = Some (Inr (with_highlight 0 g_built hm world_view))"
    and d: "dom hm = dom (sel_nodes g_built) \<union> tree_ids tree_one"
    and k: "\<forall>i. i \<notin> tree_ids tree_one \<longrightarrow> hm i = sel_nodes g_built i"
    by blast
  from d have "dom hm = {1, 2, 3, 7}"
    by (auto simp add: s tree_ids_tree_one)
  moreover from k have "hm 7 = Some 255"
    by (simp add: s tree_ids_tree_one)
  ultimately show ?thesis
    using pal_one_ok h m g e by (auto simp add: s tree_ids_tree_one)
qed

text \<open>
  The file row is also the only case of \<^verbatim>\<open>enter\<close> without the guard on \<^verbatim>\<open>gr\<close>: with
  the sample file loaded and no graph context, the first assignment to the highlight map
  dereferences the null pointer.
\<close>

lemma enter_file_row_null_gr:
  "enter pal_one 1 world_loaded = Some (Inl NullDeref)"
proof -
  have c: "get_color_anyway pal_one cg \<lparr>cv_base = Some 0, variant_index = 0\<rparr> =
           Some (shade pal_one 0 0, cg, \<lparr>cv_base = Some 0, variant_index = Suc 0\<rparr>)" for cg
    by (rule get_color_anyway_fresh) (simp_all add: pal_one_def)
  have "enter_gm pal_one world_loaded = Some (Inl NullDeref)"
    by (simp add: enter_gm_def deref_gm_def bind_r_def world_loaded_def gschooser_new_def
          tree_one_def DECL_CG_first_base [OF pal_one_ok(1)] c set_sel_node_def)
  then show ?thesis
    by (simp add: enter_def IS_SEL_def world_loaded_def gschooser_new_def file_row_def)
qed

end
